theory Spec2Isabelle
  imports Complex_Main
begin

section \<open>JavaScript values and numbers\<close>

text \<open>
  The library \<^verbatim>\<open>src/p5sprite.js\<close> is a layer over p5.js. Its numbers are modelled
  as exact reals: every theorem below is about the arithmetic the code writes down, not
  about the rounding of IEEE doubles, and NaN and the infinities are left out.
  The dynamically typed arguments that the code inspects with \<^verbatim>\<open>typeof\<close> are values
  of \<open>jsval\<close>.
\<close>

datatype jsval = Undefined | Null | JBool bool | Num real | Str string

text \<open>\<^verbatim>\<open>typeof v === 'number'\<close> and \<^verbatim>\<open>typeof v === 'string'\<close>.\<close>

fun is_number :: "jsval \<Rightarrow> bool" where
  "is_number (Num _) = True"
| "is_number _ = False"

fun is_string :: "jsval \<Rightarrow> bool" where
  "is_string (Str _) = True"
| "is_string _ = False"

text \<open>\<^verbatim>\<open>v != null\<close> (loose inequality): false for both \<^verbatim>\<open>null\<close> and \<^verbatim>\<open>undefined\<close>.\<close>

fun not_nullish :: "jsval \<Rightarrow> bool" where
  "not_nullish Undefined = False"
| "not_nullish Null = False"
| "not_nullish _ = True"

text \<open>
  The remainder operator \<^verbatim>\<open>a % n\<close> of JavaScript truncates the quotient towards zero, so
  the result has the sign of the dividend. \<open>js_rem\<close> is that operator for a divisor
  \<open>n \<noteq> 0\<close>; the one call site whose divisor can be zero (\<^verbatim>\<open>% this.images.length\<close>)
  tests for it first, where JavaScript yields NaN.
\<close>

definition trunc :: "real \<Rightarrow> int" where
  "trunc r = (if 0 \<le> r then \<lfloor>r\<rfloor> else \<lceil>r\<rceil>)"

definition js_rem :: "real \<Rightarrow> real \<Rightarrow> real" where
  "js_rem a n = a - n * of_int (trunc (a / n))"

text \<open>
  An array read \<^verbatim>\<open>xs[k]\<close> with a number \<open>k\<close>: the element when \<open>k\<close> is an integer
  within range, \<^verbatim>\<open>undefined\<close> (here \<open>None\<close>) for a negative, fractional or too large
  index.
\<close>

definition js_index :: "'a list \<Rightarrow> real \<Rightarrow> 'a option" where
  "js_index xs k =
     (if k = of_int \<lfloor>k\<rfloor> \<and> 0 \<le> k \<and> nat \<lfloor>k\<rfloor> < length xs then Some (xs ! nat \<lfloor>k\<rfloor>) else None)"

section \<open>The p5 host\<close>

text \<open>
  p5.js itself is not part of the repository. A loaded image is a handle with its source
  and the dimensions the library reads at draw time; \<^verbatim>\<open>loadImage\<close> is a parameter
  \<open>ld\<close> of every operation that loads one. The calls the library issues on the p5
  instance are recorded as values of \<open>cmd\<close>. \<^verbatim>\<open>radians\<close> and \<^verbatim>\<open>dist\<close> are p5's
  degree conversion and the length of the segment between two points.
\<close>

record image =
  img_src :: jsval
  img_width :: real
  img_height :: real

type_synonym loader = "jsval \<Rightarrow> image"

datatype mode = CENTER | LEFT | TOP

datatype cmd =
    Clear
  | Background jsval
  | Push
  | Pop
  | Translate real real
  | Rotate real
  | Scale real real
  | ImageMode mode
  | DrawImage image real real real real
  | Fill jsval
  | Stroke jsval
  | NoStroke
  | TextSize jsval
  | TextFont jsval
  | TextAlign mode mode
  | DrawText jsval real real
  | Line real real real real
  | Rect real real real real
  | LoadSound jsval bool
  | FrameRate real

definition radians :: "real \<Rightarrow> real" where
  "radians deg = deg * pi / 180"

definition p5_dist :: "real \<Rightarrow> real \<Rightarrow> real \<Rightarrow> real \<Rightarrow> real" where
  "p5_dist x1 y1 x2 y2 = sqrt ((x2 - x1)\<^sup>2 + (y2 - y1)\<^sup>2)"

section \<open>Sprite\<close>

text \<open>
  The fields of \<^verbatim>\<open>class Sprite\<close>. \<^verbatim>\<open>x\<close>, \<^verbatim>\<open>y\<close>, \<^verbatim>\<open>w\<close> and \<^verbatim>\<open>h\<close> carry a
  prefix; \<^verbatim>\<open>w\<close> and \<^verbatim>\<open>h\<close> are \<open>None\<close> while they hold \<^verbatim>\<open>null\<close>.
\<close>

record sprite =
  sprite_x :: real
  sprite_y :: real
  direction :: real
  rotationStyle :: string
  costumeId :: real
  hidden :: bool
  layer :: real
  images :: "image list"
  hitRadius :: real
  scale :: real
  sprite_w :: "real option"
  sprite_h :: "real option"

definition new_Sprite :: "loader \<Rightarrow> jsval list \<Rightarrow> sprite" where
  "new_Sprite ld imgPaths =
     \<lparr> sprite_x = 0, sprite_y = 0, direction = 90, rotationStyle = ''free'',
       costumeId = 0, hidden = False, layer = 0, images = map ld imgPaths,
       hitRadius = 40, scale = 1, sprite_w = None, sprite_h = None \<rparr>"

definition moveTo :: "real \<Rightarrow> real \<Rightarrow> sprite \<Rightarrow> sprite" where
  "moveTo x y s = s\<lparr>sprite_x := x, sprite_y := y\<rparr>"

definition stepForward :: "real \<Rightarrow> sprite \<Rightarrow> sprite" where
  "stepForward pixels s =
     (let r = radians (direction s)
      in s\<lparr>sprite_x := sprite_x s + cos r * pixels,
            sprite_y := sprite_y s + sin r * pixels\<rparr>)"

definition setScale :: "real \<Rightarrow> sprite \<Rightarrow> sprite" where
  "setScale f s = s\<lparr>scale := f\<rparr>"

definition setSize :: "real \<Rightarrow> real \<Rightarrow> sprite \<Rightarrow> sprite" where
  "setSize w h s = s\<lparr>sprite_w := Some w, sprite_h := Some h\<rparr>"

definition touched :: "sprite \<Rightarrow> sprite \<Rightarrow> bool" where
  "touched s other \<longleftrightarrow>
     p5_dist (sprite_x s) (sprite_y s) (sprite_x other) (sprite_y other)
       < hitRadius s + hitRadius other"

text \<open>
  \<^verbatim>\<open>_draw\<close>, split as the source reads: the costume lookup
  \<^verbatim>\<open>this.images[this.costumeId % this.images.length]\<close>, the rotate-or-flip step, the
  draw size, and the sequence of p5 calls. With no costume the index is NaN and the read
  gives \<^verbatim>\<open>undefined\<close>.
\<close>

definition costume :: "sprite \<Rightarrow> image option" where
  "costume s =
     (if images s = [] then None
      else js_index (images s) (js_rem (costumeId s) (real (length (images s)))))"

definition flip_heading :: "real \<Rightarrow> real" where
  "flip_heading dir = js_rem (js_rem dir 360 + 360) 360"

definition orient :: "sprite \<Rightarrow> cmd list" where
  "orient s =
     (if rotationStyle s = ''free'' then [Rotate (radians (direction s))]
      else if rotationStyle s = ''flipped'' then
        (let d = flip_heading (direction s)
         in if 90 < d \<and> d < 270 then [Scale (- 1) 1] else [])
      else [])"

definition draw_w :: "sprite \<Rightarrow> image \<Rightarrow> real" where
  "draw_w s img = (case sprite_w s of Some w \<Rightarrow> w | None \<Rightarrow> img_width img * scale s)"

definition draw_h :: "sprite \<Rightarrow> image \<Rightarrow> real" where
  "draw_h s img = (case sprite_h s of Some h \<Rightarrow> h | None \<Rightarrow> img_height img * scale s)"

definition sprite_draw :: "sprite \<Rightarrow> cmd list" where
  "sprite_draw s =
     (if hidden s then []
      else case costume s of
        None \<Rightarrow> []
      | Some img \<Rightarrow>
          [Push, Translate (sprite_x s) (sprite_y s)] @ orient s @
          [ImageMode CENTER, DrawImage img 0 0 (draw_w s img) (draw_h s img), Pop])"

section \<open>TextBox\<close>

text \<open>
  A parameter with a default (\<^verbatim>\<open>color = '#fff'\<close>) takes the default exactly when the
  argument is \<^verbatim>\<open>undefined\<close>.
\<close>

definition dflt :: "jsval \<Rightarrow> jsval \<Rightarrow> jsval" where
  "dflt v d = (if v = Undefined then d else v)"

record textbox =
  tb_x :: real
  tb_y :: real
  tb_text :: jsval
  tb_color :: jsval
  tb_size :: jsval
  tb_font :: jsval
  tb_hidden :: bool
  tb_layer :: real

definition new_TextBox :: "real \<Rightarrow> real \<Rightarrow> jsval \<Rightarrow> jsval \<Rightarrow> jsval \<Rightarrow> jsval \<Rightarrow> textbox" where
  "new_TextBox x y txt color sz font =
     \<lparr> tb_x = x, tb_y = y, tb_text = txt, tb_color = dflt color (Str ''#fff''),
       tb_size = dflt sz (Num 24), tb_font = dflt font (Str ''sans-serif''),
       tb_hidden = False, tb_layer = 0 \<rparr>"

definition textbox_draw :: "textbox \<Rightarrow> cmd list" where
  "textbox_draw t =
     (if tb_hidden t then []
      else [Push, Fill (tb_color t), NoStroke, TextSize (tb_size t), TextFont (tb_font t),
            TextAlign CENTER CENTER, DrawText (tb_text t) (tb_x t) (tb_y t), Pop])"

section \<open>InputBox\<close>

text \<open>
  The DOM element of an input box, reduced to what the library reads and writes after
  construction: its text, its \<^verbatim>\<open>display\<close> and the four placement properties (the
  fixed styling, the mounting into the document, \<^verbatim>\<open>focus\<close> and the unload listener
  are left out). A
  placement property is unset (\<open>None\<close>) until \<^verbatim>\<open>_recalc\<close> writes the template string
  \<^verbatim>\<open>`${n}px`\<close>, here \<open>Px n\<close>. \<open>rect\<close> is the result of
  \<^verbatim>\<open>canvas.getBoundingClientRect()\<close>; a sketch is the p5 instance, with the canvas that
  \<^verbatim>\<open>sk.setup\<close> builds, the flag \<^verbatim>\<open>_loop\<close> that \<^verbatim>\<open>noLoop()\<close> clears, and whether a
  run of p5's \<^verbatim>\<open>_draw\<close> has been requested and has not run yet.
\<close>

datatype css = Px real

record element =
  el_value :: string
  el_display :: string
  el_left :: "css option"
  el_top :: "css option"
  el_width :: "css option"
  el_height :: "css option"

record rect =
  rect_left :: real
  rect_top :: real

record sketch =
  canvas :: "rect option"
  looping :: bool
  pending :: bool
  sk_width :: real
  sk_height :: real

record inputbox =
  ib_layer :: real
  el :: element
  ib_cx :: real
  ib_cy :: real
  ib_w :: real
  ib_h :: real

definition recalc :: "sketch option \<Rightarrow> inputbox \<Rightarrow> inputbox" where
  "recalc si ib =
     (case si of
        None \<Rightarrow> ib
      | Some sk \<Rightarrow>
          (case canvas sk of
             None \<Rightarrow> ib
           | Some r \<Rightarrow>
               ib\<lparr>el := (el ib)
                 \<lparr>el_left := Some (Px (rect_left r + ib_cx ib - ib_w ib / 2)),
                  el_top := Some (Px (rect_top r + ib_cy ib - ib_h ib / 2)),
                  el_width := Some (Px (ib_w ib)),
                  el_height := Some (Px (ib_h ib))\<rparr>\<rparr>))"

definition new_InputBox :: "sketch option \<Rightarrow> real \<Rightarrow> real \<Rightarrow> real \<Rightarrow> real \<Rightarrow> real \<Rightarrow> inputbox" where
  "new_InputBox si x y w h lay =
     recalc si
       \<lparr> ib_layer = lay,
         el = \<lparr> el_value = [], el_display = [], el_left = None, el_top = None,
                el_width = None, el_height = None \<rparr>,
         ib_cx = x, ib_cy = y, ib_w = w, ib_h = h \<rparr>"

definition ib_moveTo :: "sketch option \<Rightarrow> real \<Rightarrow> real \<Rightarrow> inputbox \<Rightarrow> inputbox" where
  "ib_moveTo si x y ib = recalc si (ib\<lparr>ib_cx := x, ib_cy := y\<rparr>)"

definition ib_resize :: "sketch option \<Rightarrow> real \<Rightarrow> real \<Rightarrow> inputbox \<Rightarrow> inputbox" where
  "ib_resize si w h ib = recalc si (ib\<lparr>ib_w := w, ib_h := h\<rparr>)"

definition ib_sync :: "sketch option \<Rightarrow> inputbox \<Rightarrow> inputbox" where
  "ib_sync si ib = recalc si ib"

definition ib_set_value :: "string \<Rightarrow> inputbox \<Rightarrow> inputbox" where
  "ib_set_value v ib = ib\<lparr>el := (el ib)\<lparr>el_value := v\<rparr>\<rparr>"

definition ib_set_hidden :: "bool \<Rightarrow> inputbox \<Rightarrow> inputbox" where
  "ib_set_hidden f ib = ib\<lparr>el := (el ib)\<lparr>el_display := (if f then ''none'' else ''block'')\<rparr>\<rparr>"

section \<open>The extension test of setBackground\<close>

text \<open>
  \<^verbatim>\<open>/\.(png|jpe?g|gif|bmp|webp)$/i.test(val)\<close>. The pattern is a value of \<open>rx\<close>;
  \<open>rx_match r s\<close> lists the rests of \<open>s\<close> after each way of matching \<open>r\<close> at its
  start, in the order a backtracking matcher tries them. The flag \<^verbatim>\<open>i\<close> compares
  characters after mapping them to upper case, which moves ASCII letters only. The
  pattern is not anchored at the start and \<^verbatim>\<open>$\<close> (without the flag \<^verbatim>\<open>m\<close>) is the end
  of the input, so \<open>rx_test\<close> tries every start and asks for an empty rest.
\<close>

datatype rx = Eps | Chr char | Seq rx rx | Alt rx rx | Opt rx

definition upper :: "char \<Rightarrow> char" where
  "upper c = (let n = (of_char c :: nat) in if 97 \<le> n \<and> n \<le> 122 then char_of (n - 32) else c)"

fun rx_match :: "rx \<Rightarrow> string \<Rightarrow> string list" where
  "rx_match Eps s = [s]"
| "rx_match (Chr c) [] = []"
| "rx_match (Chr c) (d # t) = (if upper d = upper c then [t] else [])"
| "rx_match (Seq a b) s = concat (map (rx_match b) (rx_match a s))"
| "rx_match (Alt a b) s = rx_match a s @ rx_match b s"
| "rx_match (Opt a) s = rx_match a s @ [s]"

fun tails :: "string \<Rightarrow> string list" where
  "tails [] = [[]]"
| "tails (c # cs) = (c # cs) # tails cs"

definition rx_test :: "rx \<Rightarrow> string \<Rightarrow> bool" where
  "rx_test r s = list_ex (\<lambda>t. [] \<in> set (rx_match r t)) (tails s)"

definition lit :: "string \<Rightarrow> rx" where
  "lit w = foldr (\<lambda>c r. Seq (Chr c) r) w Eps"

definition image_rx :: rx where
  "image_rx =
     Seq (Chr CHR ''.'')
       (Alt (lit ''png'')
       (Alt (Seq (lit ''jp'') (Seq (Opt (Chr CHR ''e'')) (Chr CHR ''g'')))
       (Alt (lit ''gif'')
       (Alt (lit ''bmp'') (lit ''webp'')))))"

text \<open>
  The wording of the specification: the string ends, ignoring case, in one of the
  recognised extensions.
\<close>

definition image_extensions :: "string list" where
  "image_extensions = [''.png'', ''.jpg'', ''.jpeg'', ''.gif'', ''.bmp'', ''.webp'']"

definition ends_in_image_extension :: "string \<Rightarrow> bool" where
  "ends_in_image_extension s \<longleftrightarrow>
     (\<exists>ext \<in> set image_extensions. \<exists>p. map upper s = p @ map upper ext)"

section \<open>Module state and the public API\<close>

text \<open>
  What user code can do with the library: the functions attached to \<^verbatim>\<open>window\<close>, and
  method calls and field writes on the objects the factories returned. An object is
  named by its position in its registry (registries only grow). A frame callback is the
  list of actions it performs.
\<close>

datatype action =
    SetBackground jsval
  | CreateSprite "jsval list"
  | CreateTextBox real real jsval jsval jsval jsval
  | CreateInputBox real real "real option" "real option" "real option"
  | CreateSound jsval bool
  | DrawTextNow jsval real real jsval jsval
  | Forever "action list option"
  | Stop
  | PenColor jsval
  | PenFillColor jsval
  | PenDrawLine real real real real
  | PenDrawRect real real real real
  | OnSprite nat "sprite \<Rightarrow> sprite"
  | OnTextBox nat "textbox \<Rightarrow> textbox"
  | InputMoveTo nat real real
  | InputResize nat real real
  | InputSync nat
  | InputSetValue nat string
  | InputSetHidden nat bool

text \<open>
  The closure variables of the module, the two colours of \<^verbatim>\<open>pen\<close>, and two fields
  of bookkeeping that the source does not have: \<open>issued\<close> collects the p5 calls issued
  so far, \<open>loop_runs\<close> counts the invocations of the frame callback. The five key
  flags, which nothing else in the module reads, are left out.
\<close>

record state =
  sprites :: "sprite list"
  textBoxes :: "textbox list"
  inputBoxes :: "inputbox list"
  backdropImage :: "image option"
  bgColor :: jsval
  gameLoop :: "action list option"
  sketchInstance :: "sketch option"
  pen_color :: jsval
  pen_fillColor :: jsval
  issued :: "cmd list"
  loop_runs :: nat

definition emit :: "cmd list \<Rightarrow> state \<Rightarrow> state" where
  "emit cs st = st\<lparr>issued := issued st @ cs\<rparr>"

definition setBackground :: "loader \<Rightarrow> jsval \<Rightarrow> state \<Rightarrow> state" where
  "setBackground ld val st =
     (case val of
        Str p \<Rightarrow>
          (if rx_test image_rx p then st\<lparr>backdropImage := Some (ld val), bgColor := Null\<rparr>
           else st\<lparr>bgColor := val, backdropImage := None\<rparr>)
      | _ \<Rightarrow> st\<lparr>bgColor := val, backdropImage := None\<rparr>)"

text \<open>
  \<^verbatim>\<open>createSprite\<close> reads its leading coordinates only when the first two arguments
  are both numbers; otherwise every argument is a costume path.
\<close>

fun sprite_args :: "jsval list \<Rightarrow> real \<times> real \<times> jsval list" where
  "sprite_args (Num x # Num y # paths) = (x, y, paths)"
| "sprite_args args = (0, 0, args)"

definition createSprite :: "loader \<Rightarrow> jsval list \<Rightarrow> state \<Rightarrow> sprite \<times> state" where
  "createSprite ld args st =
     (case sprite_args args of
        (x, y, imgPaths) \<Rightarrow>
          (let s = moveTo x y (new_Sprite ld imgPaths)
           in (s, st\<lparr>sprites := sprites st @ [s]\<rparr>)))"

definition createTextBox ::
  "real \<Rightarrow> real \<Rightarrow> jsval \<Rightarrow> jsval \<Rightarrow> jsval \<Rightarrow> jsval \<Rightarrow> state \<Rightarrow> textbox \<times> state" where
  "createTextBox x y txt color sz font st =
     (let tb = new_TextBox x y txt color sz font
      in (tb, st\<lparr>textBoxes := textBoxes st @ [tb]\<rparr>))"

definition createInputBox ::
  "real \<Rightarrow> real \<Rightarrow> real option \<Rightarrow> real option \<Rightarrow> real option \<Rightarrow> state \<Rightarrow> inputbox \<times> state" where
  "createInputBox x y w h lay st =
     (let ib = new_InputBox (sketchInstance st) x y
                 (case w of None \<Rightarrow> 200 | Some v \<Rightarrow> v)
                 (case h of None \<Rightarrow> 28 | Some v \<Rightarrow> v)
                 (case lay of None \<Rightarrow> 0 | Some v \<Rightarrow> v)
      in (ib, st\<lparr>inputBoxes := inputBoxes st @ [ib]\<rparr>))"

definition createSound :: "jsval \<Rightarrow> bool \<Rightarrow> state \<Rightarrow> state" where
  "createSound path lp st = emit [LoadSound path lp] st"

definition drawText :: "jsval \<Rightarrow> real \<Rightarrow> real \<Rightarrow> jsval \<Rightarrow> jsval \<Rightarrow> state \<Rightarrow> state" where
  "drawText txt x y color sz st =
     emit [Push, Fill (dflt color (Str ''#fff'')), NoStroke, TextSize (dflt sz (Num 24)),
           TextAlign LEFT TOP, DrawText txt x y, Pop] st"

definition pen_drawLine :: "real \<Rightarrow> real \<Rightarrow> real \<Rightarrow> real \<Rightarrow> state \<Rightarrow> state" where
  "pen_drawLine x1 y1 x2 y2 st = emit [Push, Stroke (pen_color st), Line x1 y1 x2 y2, Pop] st"

definition pen_drawRect :: "real \<Rightarrow> real \<Rightarrow> real \<Rightarrow> real \<Rightarrow> state \<Rightarrow> state" where
  "pen_drawRect x y w h st = emit [Push, NoStroke, Fill (pen_fillColor st), Rect x y w h, Pop] st"

definition forever :: "action list option \<Rightarrow> state \<Rightarrow> state" where
  "forever fn st = st\<lparr>gameLoop := fn\<rparr>"

text \<open>
  \<^verbatim>\<open>stop\<close> calls p5's \<^verbatim>\<open>noLoop()\<close>, which clears the flag and nothing else: a run of
  \<^verbatim>\<open>_draw\<close> that is already requested stays requested.
\<close>

definition stop :: "state \<Rightarrow> state" where
  "stop st =
     (case sketchInstance st of
        None \<Rightarrow> st
      | Some sk \<Rightarrow> st\<lparr>sketchInstance := Some (sk\<lparr>looping := False\<rparr>)\<rparr>)"

text \<open>A call on the \<open>i\<close>-th object of a registry; there is no object to call beyond its end.\<close>

definition on_nth :: "nat \<Rightarrow> ('a \<Rightarrow> 'a) \<Rightarrow> 'a list \<Rightarrow> 'a list" where
  "on_nth i f xs = (if i < length xs then xs[i := f (xs ! i)] else xs)"

fun exec :: "loader \<Rightarrow> action \<Rightarrow> state \<Rightarrow> state" where
  "exec ld (SetBackground v) st = setBackground ld v st"
| "exec ld (CreateSprite args) st = snd (createSprite ld args st)"
| "exec ld (CreateTextBox x y txt color sz font) st = snd (createTextBox x y txt color sz font st)"
| "exec ld (CreateInputBox x y w h lay) st = snd (createInputBox x y w h lay st)"
| "exec ld (CreateSound path lp) st = createSound path lp st"
| "exec ld (DrawTextNow txt x y color sz) st = drawText txt x y color sz st"
| "exec ld (Forever fn) st = forever fn st"
| "exec ld Stop st = stop st"
| "exec ld (PenColor c) st = st\<lparr>pen_color := c\<rparr>"
| "exec ld (PenFillColor c) st = st\<lparr>pen_fillColor := c\<rparr>"
| "exec ld (PenDrawLine x1 y1 x2 y2) st = pen_drawLine x1 y1 x2 y2 st"
| "exec ld (PenDrawRect x y w h) st = pen_drawRect x y w h st"
| "exec ld (OnSprite i f) st = st\<lparr>sprites := on_nth i f (sprites st)\<rparr>"
| "exec ld (OnTextBox i f) st = st\<lparr>textBoxes := on_nth i f (textBoxes st)\<rparr>"
| "exec ld (InputMoveTo i x y) st =
     st\<lparr>inputBoxes := on_nth i (ib_moveTo (sketchInstance st) x y) (inputBoxes st)\<rparr>"
| "exec ld (InputResize i w h) st =
     st\<lparr>inputBoxes := on_nth i (ib_resize (sketchInstance st) w h) (inputBoxes st)\<rparr>"
| "exec ld (InputSync i) st =
     st\<lparr>inputBoxes := on_nth i (ib_sync (sketchInstance st)) (inputBoxes st)\<rparr>"
| "exec ld (InputSetValue i v) st = st\<lparr>inputBoxes := on_nth i (ib_set_value v) (inputBoxes st)\<rparr>"
| "exec ld (InputSetHidden i f) st = st\<lparr>inputBoxes := on_nth i (ib_set_hidden f) (inputBoxes st)\<rparr>"

text \<open>The user code \<^verbatim>\<open>s.direction += delta\<close> on a sprite.\<close>

definition turn_by :: "real \<Rightarrow> sprite \<Rightarrow> sprite" where
  "turn_by delta s = s\<lparr>direction := direction s + delta\<rparr>"

section \<open>The frame driver\<close>

text \<open>
  \<^verbatim>\<open>sk.setup\<close> builds the canvas (the host places it at \<open>r\<close> on the screen) and
  \<^verbatim>\<open>sk.draw\<close> renders one frame: background, the frame callback, then the three
  registries, each through a copy sorted by layer (\<open>sort_key\<close> is stable, as
  \<^verbatim>\<open>Array.prototype.sort\<close> is). \<^verbatim>\<open>_sync\<close> rewrites each input box from its own
  fields only, so the order of the sorted copy leaves no trace.
\<close>

definition canvaX :: real where "canvaX = 1280"
definition canvaY :: real where "canvaY = 720"

definition sk_setup :: "rect \<Rightarrow> state \<Rightarrow> state" where
  "sk_setup r st =
     (case sketchInstance st of
        None \<Rightarrow> st
      | Some sk \<Rightarrow>
          emit [FrameRate 60, ImageMode CENTER, TextFont (Str ''sans-serif'')]
            (st\<lparr>sketchInstance :=
                 Some (sk\<lparr>canvas := Some r, sk_width := canvaX, sk_height := canvaY\<rparr>)\<rparr>))"

definition draw_background :: "sketch \<Rightarrow> state \<Rightarrow> cmd list" where
  "draw_background sk st =
     (case backdropImage st of
        Some img \<Rightarrow> [DrawImage img (sk_width sk / 2) (sk_height sk / 2) (sk_width sk) (sk_height sk)]
      | None \<Rightarrow> if not_nullish (bgColor st) then [Background (bgColor st)]
                else [Background (Num 30)])"

definition run_gameLoop :: "loader \<Rightarrow> state \<Rightarrow> state" where
  "run_gameLoop ld st =
     (case gameLoop st of
        None \<Rightarrow> st
      | Some fn \<Rightarrow> fold (exec ld) fn (st\<lparr>loop_runs := Suc (loop_runs st)\<rparr>))"

definition draw_registries :: "state \<Rightarrow> state" where
  "draw_registries st =
     (emit (concat (map sprite_draw (sort_key layer (sprites st))) @
            concat (map textbox_draw (sort_key tb_layer (textBoxes st)))) st)
       \<lparr>inputBoxes := map (ib_sync (sketchInstance st)) (inputBoxes st)\<rparr>"

definition sk_draw :: "loader \<Rightarrow> sketch \<Rightarrow> state \<Rightarrow> state" where
  "sk_draw ld sk st =
     draw_registries (run_gameLoop ld (emit (Clear # draw_background sk st) st))"

text \<open>
  What happens to the page: user code calls the API, p5 sets the sketch up, the browser
  moves the canvas, or a run of p5's \<^verbatim>\<open>_draw\<close> comes. p5.js is not part of the
  repository; its scheduler is written down here as p5 has it.

  \<^item> p5 sets a sketch up once (\<^verbatim>\<open>if (!this._setupDone)\<close>): it runs \<^verbatim>\<open>sk.setup\<close> and
    then calls \<^verbatim>\<open>_draw\<close>, so after the setup a run of \<^verbatim>\<open>_draw\<close> is pending whatever
    the flag is.
  \<^item> \<^verbatim>\<open>_draw\<close> is
    \<^verbatim>\<open>if (!this._loop || time_since_last >= ...) this.redraw();
    if (this._loop) requestAnimationFrame(this._draw)\<close>:
    a run that finds the flag off redraws all the same (p5's comment: "we have to draw
    once even if looping is off") and requests nothing; a run that finds the flag on
    requests the next one. \<^verbatim>\<open>redraw\<close> calls \<^verbatim>\<open>sk.draw\<close>. A run of a looping sketch that
    comes too early for the frame rate draws nothing and is no event here.
  \<^item> A run of \<^verbatim>\<open>_draw\<close> is due when one is pending; a sketch with its canvas and its
    flag set always has one due, for the two reasons above.
\<close>

datatype event = Call action | Setup rect | Layout rect | Frame

definition request :: "state \<Rightarrow> state" where
  "request st =
     (case sketchInstance st of
        None \<Rightarrow> st
      | Some sk \<Rightarrow> st\<lparr>sketchInstance := Some (sk\<lparr>pending := True\<rparr>)\<rparr>)"

definition p5_setup :: "rect \<Rightarrow> state \<Rightarrow> state" where
  "p5_setup r st =
     (case sketchInstance st of
        None \<Rightarrow> st
      | Some sk \<Rightarrow> if canvas sk \<noteq> None then st else request (sk_setup r st))"

definition request_next :: "state \<Rightarrow> state" where
  "request_next st =
     (case sketchInstance st of
        None \<Rightarrow> st
      | Some sk \<Rightarrow> st\<lparr>sketchInstance := Some (sk\<lparr>pending := looping sk\<rparr>)\<rparr>)"

definition p5_draw :: "loader \<Rightarrow> state \<Rightarrow> state" where
  "p5_draw ld st =
     (case sketchInstance st of
        None \<Rightarrow> st
      | Some sk \<Rightarrow>
          if canvas sk \<noteq> None \<and> (looping sk \<or> pending sk)
          then request_next (sk_draw ld sk st) else st)"

definition host_layout :: "rect \<Rightarrow> state \<Rightarrow> state" where
  "host_layout r st =
     (case sketchInstance st of
        None \<Rightarrow> st
      | Some sk \<Rightarrow>
          (case canvas sk of
             None \<Rightarrow> st
           | Some _ \<Rightarrow> st\<lparr>sketchInstance := Some (sk\<lparr>canvas := Some r\<rparr>)\<rparr>))"

fun step :: "loader \<Rightarrow> event \<Rightarrow> state \<Rightarrow> state" where
  "step ld (Call a) st = exec ld a st"
| "step ld (Setup r) st = p5_setup r st"
| "step ld (Layout r) st = host_layout r st"
| "step ld Frame st = p5_draw ld st"

definition run :: "loader \<Rightarrow> event list \<Rightarrow> state \<Rightarrow> state" where
  "run ld evs st = fold (step ld) evs st"

text \<open>The module right after it has loaded: empty registries, a p5 instance not yet set up.\<close>

definition init :: state where
  "init =
     \<lparr> sprites = [], textBoxes = [], inputBoxes = [], backdropImage = None, bgColor = Null,
       gameLoop = None,
       sketchInstance =
         Some \<lparr> canvas = None, looping = True, pending = False, sk_width = 0, sk_height = 0 \<rparr>,
       pen_color = Str ''#000'', pen_fillColor = Str ''#000'', issued = [], loop_runs = 0 \<rparr>"

section \<open>The wording of the specification, and example data\<close>

text \<open>A heading normalised into \<open>[0, 360)\<close>: the heading minus the full turns below it.\<close>

definition norm360 :: "real \<Rightarrow> real" where
  "norm360 d = d - 360 * of_int \<lfloor>d / 360\<rfloor>"

text \<open>
  The placement of the alignment algorithm: the element's left edge at the canvas's left
  edge plus the logical centre minus half the width, likewise for the top, and the
  element as wide and as high as the box.
\<close>

definition aligned :: "rect \<Rightarrow> inputbox \<Rightarrow> bool" where
  "aligned r ib \<longleftrightarrow>
     el_left (el ib) = Some (Px (rect_left r + ib_cx ib - ib_w ib / 2)) \<and>
     el_top (el ib) = Some (Px (rect_top r + ib_cy ib - ib_h ib / 2)) \<and>
     el_width (el ib) = Some (Px (ib_w ib)) \<and>
     el_height (el ib) = Some (Px (ib_h ib))"

text \<open>
  The words a pattern matches, in upper case; a pattern without repetition has finitely
  many.
\<close>

fun rx_words :: "rx \<Rightarrow> string list" where
  "rx_words Eps = [[]]"
| "rx_words (Chr c) = [[upper c]]"
| "rx_words (Seq a b) = concat (map (\<lambda>u. map (\<lambda>v. u @ v) (rx_words b)) (rx_words a))"
| "rx_words (Alt a b) = rx_words a @ rx_words b"
| "rx_words (Opt a) = rx_words a @ [[]]"

text \<open>
  Example data: a loader whose images are all 200 by 120, a sprite in flip-only mode with
  a given heading, and the module after p5 has set the sketch up with the canvas at
  \<open>r\<close>.
\<close>

definition demo_loader :: loader where
  "demo_loader p = \<lparr> img_src = p, img_width = 200, img_height = 120 \<rparr>"


definition running :: "rect \<Rightarrow> state" where
  "running r = p5_setup r init"

text \<open>
  A sketch is stopped when \<^verbatim>\<open>noLoop()\<close> has cleared its flag (or there is no sketch at
  all), and halted when moreover its setup is done and no run of \<^verbatim>\<open>_draw\<close> is pending.
  A state is spinning sprite \<open>i\<close> when its sketch loops on its canvas and its frame
  callback is the user code \<^verbatim>\<open>sprite.direction += 1\<close>.
\<close>

definition stopped :: "state \<Rightarrow> bool" where
  "stopped st \<longleftrightarrow> (case sketchInstance st of None \<Rightarrow> True | Some sk \<Rightarrow> \<not> looping sk)"

definition halted :: "state \<Rightarrow> bool" where
  "halted st \<longleftrightarrow>
     (case sketchInstance st of
        None \<Rightarrow> True
      | Some sk \<Rightarrow> \<not> looping sk \<and> \<not> pending sk \<and> canvas sk \<noteq> None)"

definition spinning :: "nat \<Rightarrow> state \<Rightarrow> bool" where
  "spinning i st \<longleftrightarrow>
     (case sketchInstance st of None \<Rightarrow> False | Some sk \<Rightarrow> looping sk \<and> canvas sk \<noteq> None) \<and>
     gameLoop st = Some [OnSprite i (turn_by 1)] \<and> i < length (sprites st)"

definition origin :: rect where
  "origin = \<lparr>rect_left = 0, rect_top = 0\<rparr>"

text \<open>
  A sketch that has drawn two frames with an empty frame callback, one whose callback
  calls \<^verbatim>\<open>stop()\<close>, and one with the demo's callback that turns a sprite.
\<close>

definition two_frames :: state where
  "two_frames = run demo_loader [Frame, Frame] (forever (Some []) (running origin))"

definition stops_itself :: state where
  "stops_itself = forever (Some [Stop]) (running origin)"

definition spin_demo :: state where
  "spin_demo =
     forever (Some [OnSprite 0 (turn_by 1)])
       (snd (createSprite demo_loader [Num 600, Num 450, Str ''koding.png''] (running origin)))"

section \<open>Collision\<close>

text \<open>
  p5's \<^verbatim>\<open>dist\<close> is the Euclidean distance of the plane, here the metric of the complex
  numbers.
\<close>

lemma p5_dist_euclid:
  "p5_dist x1 y1 x2 y2 = dist (Complex x1 y1) (Complex x2 y2)"
  by (simp add: p5_dist_def dist_complex_def cmod_def power2_commute)

text \<open>
  C1. \<^verbatim>\<open>a.touched(b)\<close> is true exactly when the Euclidean distance between the two
  centres is strictly less than the sum of the two collision radii; at a distance equal
  to that sum it is false.
\<close>

theorem touched_open_boundary:
  "(touched a b \<longleftrightarrow>
      dist (Complex (sprite_x a) (sprite_y a)) (Complex (sprite_x b) (sprite_y b))
        < hitRadius a + hitRadius b) \<and>
   (dist (Complex (sprite_x a) (sprite_y a)) (Complex (sprite_x b) (sprite_y b))
        = hitRadius a + hitRadius b \<longrightarrow> \<not> touched a b)"
  by (simp add: touched_def p5_dist_euclid)

theorem touched_open_boundary_witness:
  "dist (Complex 0 0) (Complex 48 64) = 40 + 40 \<and>
   \<not> touched (moveTo 0 0 (new_Sprite demo_loader [])) (moveTo 48 64 (new_Sprite demo_loader [])) \<and>
   touched (moveTo 0 0 (new_Sprite demo_loader [])) (moveTo 48 63 (new_Sprite demo_loader []))"
proof -
  let ?a = "moveTo 0 0 (new_Sprite demo_loader [])"
  let ?b = "moveTo 48 64 (new_Sprite demo_loader [])"
  let ?c = "moveTo 48 63 (new_Sprite demo_loader [])"
  have sq: "sqrt 6400 = 80"
    by (rule real_sqrt_unique) simp_all
  have d: "dist (Complex 0 0) (Complex 48 64) = 40 + 40"
    by (simp add: dist_complex_def cmod_def sq)
  have lt: "sqrt 6273 < 80"
    by (rule real_less_lsqrt) simp_all
  have d': "dist (Complex 0 0) (Complex 48 63) < 40 + 40"
    using lt by (simp add: dist_complex_def cmod_def)
  from touched_open_boundary [of ?a ?b] d have "\<not> touched ?a ?b"
    by (simp add: moveTo_def new_Sprite_def)
  moreover from touched_open_boundary [of ?a ?c] d' have "touched ?a ?c"
    by (simp add: moveTo_def new_Sprite_def)
  ultimately show ?thesis using d by simp
qed

section \<open>Movement\<close>

text \<open>
  C4. \<^verbatim>\<open>stepForward(d)\<close> adds \<open>(d * cos \<theta>, d * sin \<theta>)\<close> to the position, where \<open>\<theta>\<close> is
  the stored heading in degrees turned into radians; the displacement is the same from
  every prior position \<open>(px, py)\<close>.
\<close>

theorem stepForward_displacement:
  "sprite_x (stepForward d s) = sprite_x s + d * cos (direction s * pi / 180) \<and>
   sprite_y (stepForward d s) = sprite_y s + d * sin (direction s * pi / 180) \<and>
   sprite_x (stepForward d (moveTo px py s)) - px = d * cos (direction s * pi / 180) \<and>
   sprite_y (stepForward d (moveTo px py s)) - py = d * sin (direction s * pi / 180)"
  by (simp add: stepForward_def moveTo_def radians_def Let_def)

section \<open>Costume selection\<close>

text \<open>
  On integers from zero up, \<^verbatim>\<open>%\<close> is the remainder of the division, so an index from
  zero up selects the costume at the index modulo the number of costumes, and the index
  equal to that number selects the first costume again.
\<close>

lemma trunc_nonneg: "0 \<le> y \<Longrightarrow> trunc y = \<lfloor>y\<rfloor>"
  by (simp add: trunc_def)

lemma js_rem_of_int:
  assumes "0 \<le> k" "0 < n"
  shows "js_rem (of_int k) (of_int n) = of_int (k mod n)"
proof -
  have "0 \<le> (of_int k :: real) / of_int n" using assms by simp
  then have "trunc (of_int k / of_int n) = k div n"
    by (simp add: trunc_nonneg floor_divide_of_int_eq)
  then have "js_rem (of_int k) (of_int n) = of_int k - of_int n * of_int (k div n)"
    by (simp add: js_rem_def)
  also have "\<dots> = of_int (k - n * (k div n))" by simp
  also have "k - n * (k div n) = k mod n" by (simp add: minus_mult_div_eq_mod)
  finally show ?thesis .
qed

lemma js_index_of_nat: "i < length xs \<Longrightarrow> js_index xs (real i) = Some (xs ! i)"
  by (simp add: js_index_def)

lemma costume_wraps_nonneg:
  assumes "images s \<noteq> []" "costumeId s = of_int k" "0 \<le> k"
  shows "costume s = Some (images s ! (nat k mod length (images s)))"
proof -
  let ?n = "length (images s)"
  have n: "0 < int ?n" using assms(1) by simp
  have "js_rem (costumeId s) (real ?n) = js_rem (of_int k) (of_int (int ?n))"
    by (simp add: assms(2))
  also have "\<dots> = of_int (k mod int ?n)" using assms(3) n by (rule js_rem_of_int)
  also have "k mod int ?n = int (nat k mod ?n)"
    using assms(3) by (simp add: nat_mod_distrib zmod_int)
  finally have "js_rem (costumeId s) (real ?n) = real (nat k mod ?n)" by simp
  moreover have "nat k mod ?n < ?n" using assms(1) by simp
  ultimately show ?thesis using assms(1) by (simp add: costume_def js_index_of_nat)
qed

lemma costume_index_N:
  assumes "images s \<noteq> []"
  shows "costume (s\<lparr>costumeId := real (length (images s))\<rparr>) = costume (s\<lparr>costumeId := 0\<rparr>)"
proof -
  have "costume (s\<lparr>costumeId := real (length (images s))\<rparr>) =
      Some (images s ! (nat (int (length (images s))) mod length (images s)))"
    using costume_wraps_nonneg [of "s\<lparr>costumeId := real (length (images s))\<rparr>" "int (length (images s))"]
      assms by simp
  moreover have "costume (s\<lparr>costumeId := 0\<rparr>) = Some (images s ! (nat 0 mod length (images s)))"
    using costume_wraps_nonneg [of "s\<lparr>costumeId := 0\<rparr>" 0] assms by simp
  ultimately show ?thesis by simp
qed

text \<open>
  C2. Rendering is to select the costume at the index modulo the number of costumes, so
  that an index out of range wraps. The code does so from zero up only: with three
  costumes the index \<open>-1\<close>, which is \<open>2\<close> modulo \<open>3\<close>, selects no costume and the sprite
  draws nothing, because \<^verbatim>\<open>-1 % 3\<close> is \<open>-1\<close>. The heading of the same function is
  normalised with \<^verbatim>\<open>((d % 360) + 360) % 360\<close>; the costume index is not.
\<close>

theorem costume_negative_index_not_wrapped:
  "costume ((new_Sprite demo_loader [Str ''a.png'', Str ''b.png'', Str ''c.png''])
             \<lparr>costumeId := - 1\<rparr>) = None \<and>
   sprite_draw ((new_Sprite demo_loader [Str ''a.png'', Str ''b.png'', Str ''c.png''])
             \<lparr>costumeId := - 1\<rparr>) = [] \<and>
   (- 1 :: int) mod 3 = 2 \<and>
   costume ((new_Sprite demo_loader [Str ''a.png'', Str ''b.png'', Str ''c.png''])
             \<lparr>costumeId := 2\<rparr>) = Some (demo_loader (Str ''c.png''))"
proof -
  have c: "\<lceil>- (1 / 3) :: real\<rceil> = 0" by (simp add: ceiling_eq_iff)
  have r: "js_rem (- 1) 3 = - 1" by (simp add: js_rem_def trunc_def c)
  have r2: "js_rem 2 3 = 2" by (simp add: js_rem_def trunc_def)
  show ?thesis
    by (simp add: costume_def sprite_draw_def new_Sprite_def r r2 js_index_def)
qed

section \<open>Rotation styles\<close>

text \<open>
  The double remainder \<^verbatim>\<open>((d % 360) + 360) % 360\<close> is the heading normalised into
  \<open>[0, 360)\<close>, for negative headings too.
\<close>

lemma norm360_range: "0 \<le> norm360 d \<and> norm360 d < 360"
proof -
  have "of_int \<lfloor>d / 360\<rfloor> \<le> d / 360" "d / 360 < of_int \<lfloor>d / 360\<rfloor> + 1"
    by linarith+
  then show ?thesis unfolding norm360_def by (simp add: field_simps)
qed









section \<open>Draw size\<close>



section \<open>Sprite creation\<close>

lemma sprite_args_other:
  "\<not> (\<exists>x y ps. args = Num x # Num y # ps) \<Longrightarrow> sprite_args args = (0, 0, args)"
  by (cases args rule: sprite_args.cases) auto

text \<open>
  C10. The sprite that \<^verbatim>\<open>createSprite\<close> returns has heading 90, rotation style free,
  costume index 0, is visible, on layer 0, with collision radius 40, scale 1 and no
  explicit size, and is appended to the registry. Its position is the first two
  arguments when both are numbers (the paths are then the arguments after them), and
  (0, 0) otherwise (every argument is then a path).
\<close>

theorem createSprite_initial_fields:
  "(let s = fst (createSprite ld args st) in
      direction s = 90 \<and> rotationStyle s = ''free'' \<and> costumeId s = 0 \<and> \<not> hidden s \<and>
      layer s = 0 \<and> hitRadius s = 40 \<and> scale s = 1 \<and> sprite_w s = None \<and> sprite_h s = None \<and>
      sprites (snd (createSprite ld args st)) = sprites st @ [s] \<and>
      (\<forall>x y ps. args = Num x # Num y # ps \<longrightarrow>
         sprite_x s = x \<and> sprite_y s = y \<and> images s = map ld ps) \<and>
      (\<not> (\<exists>x y ps. args = Num x # Num y # ps) \<longrightarrow>
         sprite_x s = 0 \<and> sprite_y s = 0 \<and> images s = map ld args))"
proof (cases "\<exists>x y ps. args = Num x # Num y # ps")
  case True
  then obtain x y ps where "args = Num x # Num y # ps" by blast
  then show ?thesis
    by (simp add: createSprite_def Let_def moveTo_def new_Sprite_def)
next
  case False
  then show ?thesis
    by (simp add: createSprite_def Let_def moveTo_def new_Sprite_def sprite_args_other)
qed

theorem createSprite_initial_fields_witness:
  "(let s = fst (createSprite demo_loader [Num 600, Num 450, Str ''koding.png''] init) in
      direction s = 90 \<and> sprite_x s = 600 \<and> sprite_y s = 450 \<and>
      images s = [demo_loader (Str ''koding.png'')]) \<and>
   (let s = fst (createSprite demo_loader [Num 600, Str ''koding.png''] init) in
      direction s = 90 \<and> sprite_x s = 0 \<and> sprite_y s = 0 \<and>
      images s = [demo_loader (Num 600), demo_loader (Str ''koding.png'')])"
  using createSprite_initial_fields [of demo_loader "[Num 600, Num 450, Str ''koding.png'']" init]
    createSprite_initial_fields [of demo_loader "[Num 600, Str ''koding.png'']" init]
  by (simp add: Let_def)

section \<open>Input box alignment\<close>

text \<open>
  C7. Whenever the alignment is recomputed while the canvas exists (by \<^verbatim>\<open>_recalc\<close>
  itself, by \<^verbatim>\<open>_sync\<close>, \<^verbatim>\<open>moveTo\<close>, \<^verbatim>\<open>resize\<close>, the constructor, or for every
  box at the end of a frame), the element is placed at left = canvas left + cx - w/2 and
  top = canvas top + cy - h/2 with width w and height h, and the logical centre and size
  stay as they are. A box created at (600, 720) with size 400 by 32 over a canvas at the
  screen origin is placed at left 400, top 704, width 400, height 32.
\<close>

theorem recalc_places_element:
  assumes "canvas sk = Some r"
  shows "aligned r (recalc (Some sk) ib) \<and>
         aligned r (ib_sync (Some sk) ib) \<and>
         aligned r (ib_moveTo (Some sk) x y ib) \<and>
         aligned r (ib_resize (Some sk) w h ib) \<and>
         aligned r (new_InputBox (Some sk) x y w h lay) \<and>
         list_all (aligned r) (inputBoxes (draw_registries (st\<lparr>sketchInstance := Some sk\<rparr>))) \<and>
         ib_cx (recalc (Some sk) ib) = ib_cx ib \<and> ib_cy (recalc (Some sk) ib) = ib_cy ib \<and>
         ib_w (recalc (Some sk) ib) = ib_w ib \<and> ib_h (recalc (Some sk) ib) = ib_h ib \<and>
         (rect_left r = 0 \<and> rect_top r = 0 \<longrightarrow>
            (let e = el (new_InputBox (Some sk) 600 720 400 32 lay) in
               el_left e = Some (Px 400) \<and> el_top e = Some (Px 704) \<and>
               el_width e = Some (Px 400) \<and> el_height e = Some (Px 32)))"
  using assms
  by (simp add: aligned_def recalc_def ib_sync_def ib_moveTo_def ib_resize_def new_InputBox_def
      draw_registries_def emit_def list_all_iff)

theorem recalc_places_element_witness:
  "(let e = el (fst (createInputBox 600 720 (Some 400) (Some 32) None
                  (running \<lparr>rect_left = 0, rect_top = 0\<rparr>))) in
      el_left e = Some (Px 400) \<and> el_top e = Some (Px 704) \<and>
      el_width e = Some (Px 400) \<and> el_height e = Some (Px 32))"
proof -
  let ?r = "\<lparr>rect_left = 0, rect_top = 0\<rparr>"
  let ?sk = "\<lparr>canvas = Some ?r, looping = True, pending = True, sk_width = canvaX,
               sk_height = canvaY\<rparr>"
  have si: "sketchInstance (running ?r) = Some ?sk"
    by (simp add: running_def p5_setup_def request_def sk_setup_def init_def emit_def)
  have "canvas ?sk = Some ?r" by simp
  from recalc_places_element [OF this, of _ _ _ _ _ 0 init] show ?thesis
    by (simp add: createInputBox_def si Let_def)
qed

section \<open>Background\<close>

text \<open>
  The matcher finds the pattern in a string exactly when the string ends, ignoring case,
  in one of the six extensions.
\<close>

lemma upper_idem: "upper (upper c) = upper c"
proof -
  define n where "n = (of_char c :: nat)"
  have n: "n < 256" unfolding n_def by simp
  show ?thesis
  proof (cases "97 \<le> n \<and> n \<le> 122")
    case True
    then have u: "upper c = char_of (n - 32)" by (simp add: upper_def n_def Let_def)
    have "n - 32 < 256" using True by arith
    then have "(of_char (char_of (n - 32) :: char) :: nat) = n - 32" by simp
    moreover have "(97 \<le> n - 32 \<and> n - 32 \<le> 122) = False" using True by arith
    ultimately show ?thesis unfolding u by (simp only: upper_def Let_def if_False)
  next
    case False
    then have "upper c = c" by (auto simp add: upper_def n_def Let_def)
    then show ?thesis by simp
  qed
qed

lemma rx_match_set:
  "set (rx_match r s) = {t. \<exists>u. s = u @ t \<and> map upper u \<in> set (rx_words r)}"
proof (induction r arbitrary: s)
  case Eps
  show ?case by auto
next
  case (Chr c)
  show ?case by (cases s) (auto simp: upper_idem Cons_eq_append_conv)
next
  case (Seq a b)
  show ?case
  proof (rule set_eqI, rule iffI)
    fix t assume "t \<in> set (rx_match (Seq a b) s)"
    then obtain m where m: "m \<in> set (rx_match a s)" "t \<in> set (rx_match b m)" by auto
    from m(1) Seq.IH(1) obtain u where u: "s = u @ m" "map upper u \<in> set (rx_words a)" by auto
    from m(2) Seq.IH(2) obtain v where v: "m = v @ t" "map upper v \<in> set (rx_words b)" by auto
    have "s = (u @ v) @ t" using u v by simp
    moreover have "map upper (u @ v) \<in> set (rx_words (Seq a b))" using u v by auto
    ultimately show "t \<in> {t. \<exists>u. s = u @ t \<and> map upper u \<in> set (rx_words (Seq a b))}" by blast
  next
    fix t assume "t \<in> {t. \<exists>u. s = u @ t \<and> map upper u \<in> set (rx_words (Seq a b))}"
    then obtain w where w: "s = w @ t" "map upper w \<in> set (rx_words (Seq a b))" by blast
    from w(2) obtain x y where xy: "x \<in> set (rx_words a)" "y \<in> set (rx_words b)" "map upper w = x @ y"
      by auto
    from xy(3) obtain u v where uv: "w = u @ v" "x = map upper u" "y = map upper v"
      by (auto simp: map_eq_append_conv)
    have "v @ t \<in> set (rx_match a s)" using Seq.IH(1) [of s] w(1) uv xy by auto
    moreover have "t \<in> set (rx_match b (v @ t))" using Seq.IH(2) [of "v @ t"] uv xy by auto
    ultimately show "t \<in> set (rx_match (Seq a b) s)" by auto
  qed
next
  case (Alt a b)
  then show ?case by auto
next
  case (Opt a)
  then show ?case by auto
qed

lemma self_in_tails: "s \<in> set (tails s)"
  by (cases s) simp_all

lemma set_tails: "set (tails s) = {t. \<exists>p. s = p @ t}"
proof (induction s)
  case Nil
  show ?case by simp
next
  case (Cons c cs)
  show ?case
  proof (rule set_eqI, rule iffI)
    fix t assume "t \<in> set (tails (c # cs))"
    then consider "t = c # cs" | "t \<in> set (tails cs)" by auto
    then show "t \<in> {t. \<exists>p. c # cs = p @ t}"
    proof cases
      case 1
      then show ?thesis by simp
    next
      case 2
      with Cons.IH obtain p where "cs = p @ t" by auto
      then have "c # cs = (c # p) @ t" by simp
      then show ?thesis by blast
    qed
  next
    fix t assume "t \<in> {t. \<exists>p. c # cs = p @ t}"
    then obtain p where p: "c # cs = p @ t" by blast
    show "t \<in> set (tails (c # cs))"
    proof (cases p)
      case Nil
      with p have "t = c # cs" by simp
      then show ?thesis using self_in_tails [of "c # cs"] by simp
    next
      case (Cons d q)
      with p have "cs = q @ t" by simp
      with Cons.IH show ?thesis by auto
    qed
  qed
qed

lemma rx_test_words:
  "rx_test r s \<longleftrightarrow> (\<exists>w \<in> set (rx_words r). \<exists>p. map upper s = p @ w)"
proof
  assume "rx_test r s"
  then obtain t where t: "t \<in> set (tails s)" "[] \<in> set (rx_match r t)"
    by (auto simp: rx_test_def list_ex_iff)
  from t(1) obtain p where p: "s = p @ t" by (auto simp: set_tails)
  from t(2) have "map upper t \<in> set (rx_words r)" by (simp add: rx_match_set)
  moreover have "map upper s = map upper p @ map upper t" using p by simp
  ultimately show "\<exists>w \<in> set (rx_words r). \<exists>p. map upper s = p @ w" by blast
next
  assume "\<exists>w \<in> set (rx_words r). \<exists>p. map upper s = p @ w"
  then obtain w p where w: "w \<in> set (rx_words r)" "map upper s = p @ w" by blast
  from w(2) obtain u t where ut: "s = u @ t" "w = map upper t"
    by (auto simp: map_eq_append_conv)
  have "t \<in> set (tails s)" using ut by (auto simp: set_tails)
  moreover have "[] \<in> set (rx_match r t)" using w(1) ut by (simp add: rx_match_set)
  ultimately show "rx_test r s" by (auto simp: rx_test_def list_ex_iff)
qed

lemma image_rx_words: "set (rx_words image_rx) = set (map (map upper) image_extensions)"
  by (simp add: image_rx_def lit_def image_extensions_def upper_idem insert_commute)

lemma image_rx_test: "rx_test image_rx s \<longleftrightarrow> ends_in_image_extension s"
  unfolding rx_test_words image_rx_words ends_in_image_extension_def by auto

lemma test_upper_case_png: "rx_test image_rx ''bg.PNG''"
  by code_simp

lemma test_colour: "\<not> rx_test image_rx ''#222''"
  by code_simp

lemma test_needs_dot: "\<not> rx_test image_rx ''png''"
  by code_simp

lemma test_mixed_case_jpeg: "rx_test image_rx ''a/b.c.JpEg''"
  by code_simp

lemma test_not_at_end: "\<not> rx_test image_rx ''x.jpg ''"
  by code_simp

text \<open>
  C6. After \<^verbatim>\<open>setBackground\<close> the backdrop image and the solid colour are never both
  active. A string that ends, ignoring case, in \<^verbatim>\<open>.png\<close>, \<^verbatim>\<open>.jpg\<close>, \<^verbatim>\<open>.jpeg\<close>, \<^verbatim>\<open>.gif\<close>,
  \<^verbatim>\<open>.bmp\<close> or \<^verbatim>\<open>.webp\<close> sets the backdrop image and clears the colour; every other
  value sets the colour and clears the backdrop image.
\<close>

theorem setBackground_one_background:
  "(let st' = setBackground ld v st in
      \<not> (backdropImage st' \<noteq> None \<and> not_nullish (bgColor st')) \<and>
      ((\<exists>p. v = Str p \<and> ends_in_image_extension p) \<longrightarrow>
         backdropImage st' = Some (ld v) \<and> bgColor st' = Null) \<and>
      (\<not> (\<exists>p. v = Str p \<and> ends_in_image_extension p) \<longrightarrow>
         bgColor st' = v \<and> backdropImage st' = None))"
  by (cases v) (simp_all add: setBackground_def image_rx_test Let_def)

theorem setBackground_one_background_witness:
  "backdropImage (setBackground demo_loader (Str ''bg.PNG'') (setBackground demo_loader (Str ''#222'') init))
     = Some (demo_loader (Str ''bg.PNG'')) \<and>
   bgColor (setBackground demo_loader (Str ''bg.PNG'') (setBackground demo_loader (Str ''#222'') init)) = Null \<and>
   bgColor (setBackground demo_loader (Str ''#222'') (setBackground demo_loader (Str ''bg.PNG'') init)) = Str ''#222'' \<and>
   backdropImage (setBackground demo_loader (Str ''#222'') (setBackground demo_loader (Str ''bg.PNG'') init)) = None"
proof -
  have a: "ends_in_image_extension ''bg.PNG''" using test_upper_case_png image_rx_test [of "''bg.PNG''"] by blast
  have b: "\<not> ends_in_image_extension ''#222''" using test_colour image_rx_test [of "''#222''"] by blast
  show ?thesis
    using setBackground_one_background
        [of demo_loader "Str ''bg.PNG''" "setBackground demo_loader (Str ''#222'') init"]
      setBackground_one_background
        [of demo_loader "Str ''#222''" "setBackground demo_loader (Str ''bg.PNG'') init"]
      a b
    by (simp add: Let_def)
qed

section \<open>The frame loop\<close>

text \<open>
  No action of the API sets the loop flag or requests a run of \<^verbatim>\<open>_draw\<close>, and none runs
  the frame callback: only a run of \<^verbatim>\<open>_draw\<close> does.
\<close>

lemma exec_sketchInstance:
  "sketchInstance (exec ld a st) = (if a = Stop then sketchInstance (stop st) else sketchInstance st)"
  by (cases a)
    (simp_all add: setBackground_def createSprite_def createTextBox_def createInputBox_def
      createSound_def drawText_def forever_def pen_drawLine_def pen_drawRect_def emit_def Let_def
      split: jsval.splits prod.splits)

lemma exec_loop_runs: "loop_runs (exec ld a st) = loop_runs st"
  by (cases a)
    (simp_all add: setBackground_def createSprite_def createTextBox_def createInputBox_def
      createSound_def drawText_def forever_def pen_drawLine_def pen_drawRect_def emit_def Let_def
      stop_def split: jsval.splits prod.splits option.splits)

lemma stopped_stop: "stopped (stop st)"
  by (simp add: stopped_def stop_def split: option.splits)

lemma loop_runs_stop: "loop_runs (stop st) = loop_runs st"
  by (simp add: stop_def split: option.splits)

lemma exec_stopped: "stopped st \<Longrightarrow> stopped (exec ld a st)"
  using stopped_stop [of st] by (simp add: stopped_def exec_sketchInstance)

lemma exec_halted: "halted st \<Longrightarrow> halted (exec ld a st)"
  by (auto simp: halted_def exec_sketchInstance stop_def split: option.splits)

lemma halted_stopped: "halted st \<Longrightarrow> stopped st"
  by (auto simp: halted_def stopped_def split: option.splits)

text \<open>The frame callback, run from any state.\<close>

lemma callback_loop_runs: "loop_runs (fold (exec ld) fn st) = loop_runs st"
  by (induction fn arbitrary: st) (simp_all add: exec_loop_runs)

lemma callback_stopped: "stopped st \<Longrightarrow> stopped (fold (exec ld) fn st)"
  by (induction fn arbitrary: st) (simp_all add: exec_stopped)

lemma callback_with_stop: "Stop \<in> set fn \<Longrightarrow> stopped (fold (exec ld) fn st)"
proof (induction fn arbitrary: st)
  case Nil
  then show ?case by simp
next
  case (Cons a fn)
  show ?case
  proof (cases "a = Stop")
    case True
    then show ?thesis using callback_stopped [OF stopped_stop, of ld fn st] by simp
  next
    case False
    with Cons show ?thesis by simp
  qed
qed

lemma exec_canvas:
  "sketchInstance st = Some sk \<Longrightarrow>
   \<exists>sk'. sketchInstance (exec ld a st) = Some sk' \<and> canvas sk' = canvas sk"
  by (simp add: exec_sketchInstance stop_def)

lemma callback_canvas:
  "sketchInstance st = Some sk \<Longrightarrow>
   \<exists>sk'. sketchInstance (fold (exec ld) fn st) = Some sk' \<and> canvas sk' = canvas sk"
proof (induction fn arbitrary: st sk)
  case Nil
  then show ?case by simp
next
  case (Cons a fn)
  from exec_canvas [OF Cons.prems, of ld a] obtain sk1
    where "sketchInstance (exec ld a st) = Some sk1" "canvas sk1 = canvas sk" by blast
  with Cons.IH [of "exec ld a st" sk1] show ?case by simp
qed

text \<open>One run of \<^verbatim>\<open>sk.draw\<close>: the callback runs at most once and sets no flag.\<close>

lemma stopped_cong: "sketchInstance st' = sketchInstance st \<Longrightarrow> stopped st' = stopped st"
  by (simp add: stopped_def)

lemma run_gameLoop_stopped:
  assumes "stopped st"
  shows "stopped (run_gameLoop ld st)"
proof (cases "gameLoop st")
  case None
  then show ?thesis using assms by (simp add: run_gameLoop_def)
next
  case (Some fn)
  from assms have "stopped (st\<lparr>loop_runs := Suc (loop_runs st)\<rparr>)" by (simp add: stopped_def)
  then show ?thesis using Some by (simp add: run_gameLoop_def callback_stopped)
qed

lemma run_gameLoop_with_stop:
  "gameLoop st = Some fn \<Longrightarrow> Stop \<in> set fn \<Longrightarrow> stopped (run_gameLoop ld st)"
  by (simp add: run_gameLoop_def callback_with_stop)

lemma run_gameLoop_loop_runs:
  "loop_runs (run_gameLoop ld st) = (if gameLoop st = None then loop_runs st else Suc (loop_runs st))"
  by (simp add: run_gameLoop_def callback_loop_runs split: option.splits)

lemma run_gameLoop_canvas:
  assumes "sketchInstance st = Some sk"
  shows "\<exists>sk'. sketchInstance (run_gameLoop ld st) = Some sk' \<and> canvas sk' = canvas sk"
proof (cases "gameLoop st")
  case None
  then show ?thesis using assms by (simp add: run_gameLoop_def)
next
  case (Some fn)
  have "sketchInstance (st\<lparr>loop_runs := Suc (loop_runs st)\<rparr>) = Some sk" using assms by simp
  from callback_canvas [OF this, of ld fn] show ?thesis using Some by (simp add: run_gameLoop_def)
qed

lemma sk_draw_parts:
  "sketchInstance (sk_draw ld sk0 st) =
     sketchInstance (run_gameLoop ld (emit (Clear # draw_background sk0 st) st))"
  "loop_runs (sk_draw ld sk0 st) =
     loop_runs (run_gameLoop ld (emit (Clear # draw_background sk0 st) st))"
  by (simp_all add: sk_draw_def draw_registries_def emit_def)

lemma emit_parts:
  "sketchInstance (emit cs st) = sketchInstance st" "loop_runs (emit cs st) = loop_runs st"
  "gameLoop (emit cs st) = gameLoop st"
  by (simp_all add: emit_def)

lemma sk_draw_stopped: "stopped st \<Longrightarrow> stopped (sk_draw ld sk0 st)"
proof -
  assume "stopped st"
  then have "stopped (emit (Clear # draw_background sk0 st) st)"
    by (simp add: stopped_def emit_parts)
  then have "stopped (run_gameLoop ld (emit (Clear # draw_background sk0 st) st))"
    by (rule run_gameLoop_stopped)
  then show ?thesis by (simp add: stopped_def sk_draw_parts)
qed

lemma sk_draw_with_stop:
  assumes "gameLoop st = Some fn" and "Stop \<in> set fn"
  shows "stopped (sk_draw ld sk0 st)"
proof -
  have "gameLoop (emit (Clear # draw_background sk0 st) st) = Some fn"
    using assms(1) by (simp add: emit_parts)
  from run_gameLoop_with_stop [OF this assms(2), of ld]
  show ?thesis by (simp add: stopped_def sk_draw_parts)
qed

lemma sk_draw_loop_runs:
  "loop_runs (sk_draw ld sk0 st) = (if gameLoop st = None then loop_runs st else Suc (loop_runs st))"
  by (simp add: sk_draw_parts run_gameLoop_loop_runs emit_parts)

lemma sk_draw_canvas:
  assumes "sketchInstance st = Some sk"
  shows "\<exists>sk'. sketchInstance (sk_draw ld sk0 st) = Some sk' \<and> canvas sk' = canvas sk"
proof -
  have "sketchInstance (emit (Clear # draw_background sk0 st) st) = Some sk"
    using assms by (simp add: emit_parts)
  from run_gameLoop_canvas [OF this, of ld] show ?thesis by (simp add: sk_draw_parts)
qed

text \<open>
  A run of \<^verbatim>\<open>_draw\<close> that finds the flag off after \<^verbatim>\<open>sk.draw\<close> requests nothing: the
  sketch is halted.
\<close>

lemma request_next_halts:
  assumes "stopped st" and "sketchInstance st = Some sk" and "canvas sk \<noteq> None"
  shows "halted (request_next st)" and "loop_runs (request_next st) = loop_runs st"
  using assms by (simp_all add: request_next_def halted_def stopped_def)

lemma p5_draw_halted: "halted st \<Longrightarrow> p5_draw ld st = st"
  by (auto simp: p5_draw_def halted_def split: option.splits)

lemma p5_draw_stopped:
  assumes "stopped st"
  shows "p5_draw ld st = st \<or>
         (halted (p5_draw ld st) \<and> loop_runs (p5_draw ld st) \<le> Suc (loop_runs st))"
proof (cases "sketchInstance st")
  case None
  then show ?thesis by (simp add: p5_draw_def)
next
  case (Some sk)
  show ?thesis
  proof (cases "canvas sk \<noteq> None \<and> (looping sk \<or> pending sk)")
    case False
    then show ?thesis using Some by (auto simp: p5_draw_def)
  next
    case True
    then have eq: "p5_draw ld st = request_next (sk_draw ld sk st)"
      using Some by (simp add: p5_draw_def)
    from sk_draw_canvas [OF Some, of ld sk] obtain sk'
      where sk': "sketchInstance (sk_draw ld sk st) = Some sk'" "canvas sk' = canvas sk" by blast
    have c: "canvas sk' \<noteq> None" using True sk'(2) by simp
    have "halted (p5_draw ld st)"
      unfolding eq by (rule request_next_halts(1) [OF sk_draw_stopped [OF assms] sk'(1) c])
    moreover have "loop_runs (p5_draw ld st) \<le> Suc (loop_runs st)"
      unfolding eq
      by (simp add: request_next_halts(2) [OF sk_draw_stopped [OF assms] sk'(1) c] sk_draw_loop_runs)
    ultimately show ?thesis by simp
  qed
qed

text \<open>
  When the frame callback itself calls \<^verbatim>\<open>stop()\<close>, the run of \<^verbatim>\<open>_draw\<close> it is in is the
  last one.
\<close>

lemma p5_draw_with_stop:
  assumes "sketchInstance st = Some sk" and "looping sk" and "canvas sk = Some r"
    and "gameLoop st = Some fn" and "Stop \<in> set fn"
  shows "halted (p5_draw ld st)" and "loop_runs (p5_draw ld st) = Suc (loop_runs st)"
proof -
  have eq: "p5_draw ld st = request_next (sk_draw ld sk st)"
    using assms(1-3) by (simp add: p5_draw_def)
  from sk_draw_canvas [OF assms(1), of ld sk] obtain sk'
    where sk': "sketchInstance (sk_draw ld sk st) = Some sk'" "canvas sk' = canvas sk" by blast
  have c: "canvas sk' \<noteq> None" using assms(3) sk'(2) by simp
  have s: "stopped (sk_draw ld sk st)" using assms(4,5) by (rule sk_draw_with_stop)
  show "halted (p5_draw ld st)" unfolding eq by (rule request_next_halts(1) [OF s sk'(1) c])
  show "loop_runs (p5_draw ld st) = Suc (loop_runs st)"
    unfolding eq by (simp add: request_next_halts(2) [OF s sk'(1) c] sk_draw_loop_runs assms(4))
qed

text \<open>Every event keeps a halted sketch halted and a stopped sketch stopped.\<close>

lemma step_halted:
  assumes "halted st"
  shows "halted (step ld ev st) \<and> loop_runs (step ld ev st) = loop_runs st"
proof (cases ev)
  case (Call a)
  then show ?thesis using assms by (simp add: exec_halted exec_loop_runs)
next
  case (Setup r)
  then show ?thesis using assms
    by (auto simp: p5_setup_def halted_def split: option.splits)
next
  case (Layout r)
  then show ?thesis using assms
    by (auto simp: host_layout_def halted_def split: option.splits)
next
  case Frame
  then show ?thesis using assms by (simp add: p5_draw_halted)
qed

lemma step_stopped:
  assumes "stopped st"
  shows "stopped (step ld ev st) \<and>
         (loop_runs (step ld ev st) = loop_runs st \<or>
          halted (step ld ev st) \<and> loop_runs (step ld ev st) \<le> Suc (loop_runs st))"
proof (cases ev)
  case (Call a)
  then show ?thesis using assms by (simp add: exec_stopped exec_loop_runs)
next
  case (Setup r)
  then show ?thesis using assms
    by (auto simp: p5_setup_def request_def sk_setup_def stopped_def emit_def split: option.splits)
next
  case (Layout r)
  then show ?thesis using assms
    by (auto simp: host_layout_def stopped_def split: option.splits)
next
  case Frame
  from p5_draw_stopped [OF assms, of ld] show ?thesis
  proof
    assume "p5_draw ld st = st"
    then show ?thesis using Frame assms by simp
  next
    assume "halted (p5_draw ld st) \<and> loop_runs (p5_draw ld st) \<le> Suc (loop_runs st)"
    then show ?thesis using Frame by (simp add: halted_stopped)
  qed
qed

lemma run_Cons: "run ld (ev # evs) st = run ld evs (step ld ev st)"
  by (simp add: run_def)

lemma run_halted: "halted st \<Longrightarrow> halted (run ld evs st) \<and> loop_runs (run ld evs st) = loop_runs st"
proof (induction evs arbitrary: st)
  case Nil
  then show ?case by (simp add: run_def)
next
  case (Cons ev evs)
  from step_halted [OF Cons.prems, of ld ev] Cons.IH [of "step ld ev st"]
  show ?case by (simp add: run_Cons)
qed

lemma run_stopped:
  "stopped st \<Longrightarrow> stopped (run ld evs st) \<and> loop_runs (run ld evs st) \<le> Suc (loop_runs st)"
proof (induction evs arbitrary: st)
  case Nil
  then show ?case by (simp add: run_def)
next
  case (Cons ev evs)
  from step_stopped [OF Cons.prems, of ld ev]
  have s: "stopped (step ld ev st)"
    and d: "loop_runs (step ld ev st) = loop_runs st \<or>
            halted (step ld ev st) \<and> loop_runs (step ld ev st) \<le> Suc (loop_runs st)"
    by simp_all
  from d show ?case
  proof
    assume "loop_runs (step ld ev st) = loop_runs st"
    with Cons.IH [OF s] show ?thesis by (simp add: run_Cons)
  next
    assume h: "halted (step ld ev st) \<and> loop_runs (step ld ev st) \<le> Suc (loop_runs st)"
    with run_halted [of "step ld ev st" ld evs] show ?thesis
      by (simp add: run_Cons halted_stopped)
  qed
qed

lemma running_sketch:
  "sketchInstance (running r) =
     Some \<lparr>canvas = Some r, looping = True, pending = True, sk_width = canvaX,
           sk_height = canvaY\<rparr>"
  by (simp add: running_def p5_setup_def request_def sk_setup_def init_def emit_def)

lemma empty_callback_frame:
  assumes "sketchInstance st = Some sk" and "canvas sk = Some r" and "looping sk \<or> pending sk"
    and "gameLoop st = Some []"
  shows "sketchInstance (p5_draw ld st) = Some (sk\<lparr>pending := looping sk\<rparr>)"
    and "gameLoop (p5_draw ld st) = Some []"
    and "loop_runs (p5_draw ld st) = Suc (loop_runs st)"
  using assms
  by (auto simp: p5_draw_def request_next_def sk_draw_def run_gameLoop_def draw_registries_def
      emit_def)

lemma two_frames_facts:
  "sketchInstance two_frames =
     Some \<lparr>canvas = Some origin, looping = True, pending = True, sk_width = canvaX,
           sk_height = canvaY\<rparr>"
  "gameLoop two_frames = Some []"
  "loop_runs two_frames = 2"
proof -
  let ?s0 = "forever (Some []) (running origin)"
  let ?sk = "\<lparr>canvas = Some origin, looping = True, pending = True, sk_width = canvaX,
              sk_height = canvaY\<rparr>"
  have s0: "sketchInstance ?s0 = Some ?sk" "gameLoop ?s0 = Some []" "loop_runs ?s0 = 0"
    by (simp_all add: forever_def running_sketch) (simp add: running_def p5_setup_def request_def sk_setup_def init_def emit_def)
  have c: "canvas ?sk = Some origin" "looping ?sk \<or> pending ?sk" by simp_all
  note f1 = empty_callback_frame [OF s0(1) c s0(2), of demo_loader]
  have c1: "canvas (?sk\<lparr>pending := looping ?sk\<rparr>) = Some origin"
    "looping (?sk\<lparr>pending := looping ?sk\<rparr>) \<or> pending (?sk\<lparr>pending := looping ?sk\<rparr>)"
    by simp_all
  note f2 = empty_callback_frame [OF f1(1) c1 f1(2), of demo_loader]
  have tf: "two_frames = p5_draw demo_loader (p5_draw demo_loader ?s0)"
    by (simp add: two_frames_def run_def)
  show "sketchInstance two_frames =
     Some \<lparr>canvas = Some origin, looping = True, pending = True, sk_width = canvaX,
           sk_height = canvaY\<rparr>"
    unfolding tf using f2(1) by simp
  show "gameLoop two_frames = Some []" unfolding tf by (rule f2(2))
  show "loop_runs two_frames = 2" unfolding tf using f2(3) f1(3) s0(3) by simp
qed

text \<open>
  C8, as it is stated, fails. The claim is that once \<^verbatim>\<open>stop()\<close> has been called the
  frame callback is never invoked again. \<^verbatim>\<open>stop()\<close> clears the flag, but the run of
  \<^verbatim>\<open>_draw\<close> that p5 has already requested still comes and redraws: a sketch that has
  drawn two frames and is stopped from outside its callback invokes the callback a third
  time, and a sketch stopped before its setup invokes it once after the setup.
\<close>

theorem stop_outside_callback_counterexample:
  "loop_runs (run demo_loader [Call Stop] two_frames) = 2 \<and>
   loop_runs (run demo_loader [Call Stop, Frame] two_frames) = 3 \<and>
   loop_runs (run demo_loader [Call (Forever (Some [])), Call Stop] init) = 0 \<and>
   loop_runs (run demo_loader [Call (Forever (Some [])), Call Stop, Setup origin, Frame] init) = 1"
proof -
  let ?sk = "\<lparr>canvas = Some origin, looping = False, pending = True, sk_width = canvaX,
              sk_height = canvaY\<rparr>"
  have st: "sketchInstance (stop two_frames) = Some ?sk" "gameLoop (stop two_frames) = Some []"
    "loop_runs (stop two_frames) = 2"
    by (simp_all add: stop_def two_frames_facts)
  have c: "canvas ?sk = Some origin" "looping ?sk \<or> pending ?sk" by simp_all
  have a: "loop_runs (run demo_loader [Call Stop, Frame] two_frames) = 3"
    using empty_callback_frame(3) [OF st(1) c st(2), of demo_loader] st(3) by (simp add: run_def)
  let ?s1 = "p5_setup origin (stop (forever (Some []) init))"
  have s1: "sketchInstance ?s1 = Some ?sk" "gameLoop ?s1 = Some []" "loop_runs ?s1 = 0"
    by (simp_all add: p5_setup_def request_def sk_setup_def stop_def forever_def init_def emit_def)
  have b: "loop_runs (run demo_loader [Call (Forever (Some [])), Call Stop, Setup origin, Frame] init) = 1"
    using empty_callback_frame(3) [OF s1(1) c s1(2), of demo_loader] s1(3) by (simp add: run_def)
  have "loop_runs (run demo_loader [Call (Forever (Some [])), Call Stop] init) = 0"
    by (simp add: run_def stop_def forever_def init_def)
  with a b st(3) show ?thesis by (simp add: run_def)
qed

text \<open>
  C8, amended. Once \<^verbatim>\<open>stop()\<close> has been called, the loop flag stays cleared whatever
  calls of the public API and host events follow (no resume), and the frame callback is
  invoked at most once more: in the one run of \<^verbatim>\<open>_draw\<close> that was already due. When
  \<^verbatim>\<open>stop()\<close> is called from within the frame callback of a looping sketch, that
  invocation is the last one.
\<close>

theorem stop_leaves_at_most_one_frame:
  "stopped (run ld evs (stop st)) \<and>
   loop_runs (run ld evs (stop st)) \<le> Suc (loop_runs st) \<and>
   (sketchInstance st = Some sk \<and> looping sk \<and> canvas sk = Some r \<and>
    gameLoop st = Some fn \<and> Stop \<in> set fn \<longrightarrow>
      loop_runs (run ld evs (step ld Frame st)) = Suc (loop_runs st))"
proof (intro conjI impI)
  from run_stopped [OF stopped_stop, of ld evs st]
  show "stopped (run ld evs (stop st))" "loop_runs (run ld evs (stop st)) \<le> Suc (loop_runs st)"
    by (simp_all add: loop_runs_stop)
next
  assume a: "sketchInstance st = Some sk \<and> looping sk \<and> canvas sk = Some r \<and>
    gameLoop st = Some fn \<and> Stop \<in> set fn"
  then have "halted (p5_draw ld st)" "loop_runs (p5_draw ld st) = Suc (loop_runs st)"
    using p5_draw_with_stop [of st sk r fn ld] by simp_all
  with run_halted [of "p5_draw ld st" ld evs]
  show "loop_runs (run ld evs (step ld Frame st)) = Suc (loop_runs st)" by simp
qed

theorem stop_leaves_at_most_one_frame_witness:
  "loop_runs (run demo_loader [Frame, Frame, Call (Forever (Some [])), Frame] stops_itself) = 1 \<and>
   loop_runs (run demo_loader [Frame, Call (Forever (Some [])), Frame, Frame] (stop two_frames)) \<le> 3"
proof -
  let ?sk = "\<lparr>canvas = Some origin, looping = True, pending = True, sk_width = canvaX,
              sk_height = canvaY\<rparr>"
  have s: "sketchInstance stops_itself = Some ?sk" "gameLoop stops_itself = Some [Stop]"
    "loop_runs stops_itself = 0"
    by (simp_all add: stops_itself_def forever_def running_sketch)
      (simp add: running_def p5_setup_def request_def sk_setup_def init_def emit_def)
  have h: "sketchInstance stops_itself = Some ?sk \<and> looping ?sk \<and> canvas ?sk = Some origin \<and>
    gameLoop stops_itself = Some [Stop] \<and> Stop \<in> set [Stop]"
    using s by simp
  from stop_leaves_at_most_one_frame
    [of demo_loader "[Frame, Call (Forever (Some [])), Frame]" stops_itself ?sk origin "[Stop]"] h s(3)
  have "loop_runs (run demo_loader [Frame, Frame, Call (Forever (Some [])), Frame] stops_itself) = 1"
    by (simp add: run_Cons)
  moreover from stop_leaves_at_most_one_frame
    [of demo_loader "[Frame, Call (Forever (Some [])), Frame, Frame]" two_frames]
  have "loop_runs (run demo_loader [Frame, Call (Forever (Some [])), Frame, Frame] (stop two_frames)) \<le> 3"
    by (simp add: two_frames_facts)
  ultimately show ?thesis by simp
qed

section \<open>Headings\<close>

lemma draw_registries_sprites: "sprites (draw_registries st) = sprites st"
  by (simp add: draw_registries_def emit_def)

lemma exec_keeps_sprites:
  "(\<exists>j f. a = OnSprite j f) \<or> take (length (sprites st)) (sprites (exec ld a st)) = sprites st"
  by (cases a)
    (simp_all add: setBackground_def createSprite_def createTextBox_def createInputBox_def
      createSound_def drawText_def forever_def pen_drawLine_def pen_drawRect_def emit_def Let_def
      stop_def split: jsval.splits prod.splits option.splits)

lemma frame_turns:
  assumes "spinning i st"
  shows "spinning i (p5_draw ld st) \<and>
         direction (sprites (p5_draw ld st) ! i) = direction (sprites st ! i) + 1"
  using assms
  by (auto simp: spinning_def p5_draw_def request_next_def sk_draw_def run_gameLoop_def
      draw_registries_def emit_def on_nth_def turn_by_def split: option.splits)

lemma run_snoc_Frame: "run ld (replicate (Suc n) Frame) st = p5_draw ld (run ld (replicate n Frame) st)"
proof -
  have "replicate (Suc n) Frame = replicate n Frame @ [Frame]"
    by (simp add: replicate_append_same)
  then show ?thesis by (simp only: run_def fold_append o_apply fold_simps step.simps)
qed

lemma frames_turn:
  assumes "spinning i st"
  shows "spinning i (run ld (replicate n Frame) st) \<and>
         direction (sprites (run ld (replicate n Frame) st) ! i) = direction (sprites st ! i) + real n"
proof (induction n)
  case 0
  show ?case using assms by (simp add: run_def)
next
  case (Suc n)
  from frame_turns [OF conjunct1 [OF Suc], of ld] Suc
  show ?case unfolding run_snoc_Frame by (simp add: add.assoc)
qed

text \<open>
  C9. No operation normalises the stored heading: \<^verbatim>\<open>stepForward\<close>, \<^verbatim>\<open>moveTo\<close>,
  \<^verbatim>\<open>setScale\<close> and \<^verbatim>\<open>setSize\<close> leave it as it is, drawing the registries changes
  no sprite, and every action of the API other than the user's own call or write on a
  sprite leaves the sprites that exist as they are. With a frame callback that adds 1 to
  the heading of a sprite, 360 frames leave the stored heading at its initial value plus
  360.
\<close>

theorem heading_is_not_normalized:
  assumes "sketchInstance st = Some sk" and "looping sk" and "canvas sk = Some r"
    and "gameLoop st = Some [OnSprite i (turn_by 1)]" and "i < length (sprites st)"
  shows "direction (stepForward d s) = direction s \<and>
         direction (moveTo x y s) = direction s \<and>
         direction (setScale f s) = direction s \<and>
         direction (setSize w h s) = direction s \<and>
         sprites (draw_registries st) = sprites st \<and>
         (\<forall>a st'. (\<exists>j f. a = OnSprite j f) \<or>
            take (length (sprites st')) (sprites (exec ld a st')) = sprites st') \<and>
         direction (sprites (run ld (replicate 360 Frame) st) ! i) = direction (sprites st ! i) + 360"
proof -
  have api: "\<forall>a st'. (\<exists>j f. a = OnSprite j f) \<or>
      take (length (sprites st')) (sprites (exec ld a st')) = sprites st'"
    using exec_keeps_sprites by blast
  have "spinning i st" using assms by (simp add: spinning_def)
  from frames_turn [OF this, of ld 360]
  have turns: "direction (sprites (run ld (replicate 360 Frame) st) ! i) = direction (sprites st ! i) + 360"
    by simp
  have ops: "direction (stepForward d s) = direction s" "direction (moveTo x y s) = direction s"
    "direction (setScale f s) = direction s" "direction (setSize w h s) = direction s"
    by (simp_all add: stepForward_def moveTo_def setScale_def setSize_def Let_def)
  from ops draw_registries_sprites [of st] api turns show ?thesis by blast
qed

theorem heading_is_not_normalized_witness:
  "direction (sprites spin_demo ! 0) = 90 \<and>
   direction (sprites (run demo_loader (replicate 360 Frame) spin_demo) ! 0) = 450 \<and>
   direction (stepForward 10 (sprites (run demo_loader (replicate 360 Frame) spin_demo) ! 0)) = 450"
proof -
  let ?sk = "\<lparr>canvas = Some origin, looping = True, pending = True, sk_width = canvaX,
              sk_height = canvaY\<rparr>"
  have si: "sketchInstance spin_demo = Some ?sk"
    by (simp add: spin_demo_def forever_def createSprite_def Let_def running_sketch)
  have gl: "gameLoop spin_demo = Some [OnSprite 0 (turn_by 1)]"
    by (simp add: spin_demo_def forever_def)
  have sp: "sprites spin_demo = [moveTo 600 450 (new_Sprite demo_loader [Str ''koding.png''])]"
    by (simp add: spin_demo_def forever_def createSprite_def Let_def running_def p5_setup_def
        request_def sk_setup_def init_def emit_def)
  have len: "0 < length (sprites spin_demo)" by (simp add: sp)
  have d0: "direction (sprites spin_demo ! 0) = 90"
    by (simp add: sp moveTo_def new_Sprite_def)
  have lo: "looping ?sk" "canvas ?sk = Some origin" by simp_all
  from heading_is_not_normalized [OF si lo gl len, of 10 _ _ _ _ _ _ demo_loader] d0
  show ?thesis by simp
qed

end
